theory Spec2Isabelle
  imports Complex_Main "HOL-Library.AList"
begin

section \<open>The real-time broadcast layer of \<open>app/routes/websocket.py\<close>\<close>

text \<open>
  The development embeds the class \<open>ConnectionManager\<close>, the per-client task
  \<open>send_metrics_updates\<close> with \<open>get_live_metrics\<close>, and the process-wide task
  \<open>monitor_business_metrics\<close> with \<open>broadcast_revenue_milestone\<close>.

  Conventions of the embedding.
  \<^item> A Python \<open>dict\<close> is an association list: \<open>d[k] = v\<close> is \<open>AList.update\<close> (the entry
    is replaced in place or appended), \<open>del d[k]\<close> is \<open>AList.delete\<close>, \<open>k in d\<close> is
    membership in the list of keys, and a read is \<open>map_of\<close>.
  \<^item> A Python \<open>set\<close> of client ids is a list: \<open>add\<close> is \<open>List.insert\<close>, \<open>discard\<close> is
    \<open>removeAll\<close>. The order of such a list means nothing. Python iterates a set in an
    order it does not specify; the model iterates the list from left to right, and the
    general results about deliveries speak of membership and counts, never of that order.
  \<^item> The coroutines are run one after the other: a call runs to its end before the next
    one starts. Interleavings at an \<open>await\<close> are outside the model.
  \<^item> An exception is a value \<open>Inl e\<close> of the result type \<open>error + 'a\<close>; a
    \<open>try\<close>/\<open>except Exception\<close> block is \<open>try_except\<close>. Calls of \<open>logger\<close> have no effect
    on the state and are left out.
\<close>

subsection \<open>Data\<close>

type_synonym client_id = string
type_synonym topic = string

text \<open>A \<open>WebSocket\<close> object is known by its identity only.\<close>

type_synonym websocket = nat

text \<open>The values that travel in a JSON message.\<close>

datatype json =
    JNull
  | JInt int
  | JFloat rat
  | JStr string
  | JList "json list"
  | JDict "(string \<times> json) list"

type_synonym message = "(string \<times> json) list"

text \<open>The value stored under a client id in \<open>connection_metadata\<close>: two clock readings.\<close>

record metadata =
  connected_at :: nat
  last_ping :: nat

record manager =
  active_connections :: "(client_id \<times> websocket) list"
  subscriptions :: "(topic \<times> client_id list) list"
  connection_metadata :: "(client_id \<times> metadata) list"

text \<open>\<open>ConnectionManager.__init__\<close>: three empty dictionaries.\<close>

definition init_manager :: manager where
  "init_manager = \<lparr>active_connections = [], subscriptions = [], connection_metadata = []\<rparr>"

text \<open>
  What lies outside the process: whether \<open>websocket.accept()\<close> and
  \<open>websocket.send_json(message)\<close> raise. A frame that was sent is appended to \<open>wire\<close>,
  together with the client id under which the web socket was looked up.
\<close>

record transport =
  accept_raises :: "websocket \<Rightarrow> bool"
  send_raises :: "websocket \<Rightarrow> message \<Rightarrow> bool"

type_synonym delivery = "client_id \<times> websocket \<times> message"

record world =
  mgr :: manager
  wire :: "delivery list"

datatype error = WebSocketError | DatabaseError | TypeError

definition try_except :: "error + 'a \<Rightarrow> (error \<Rightarrow> error + 'a) \<Rightarrow> error + 'a" where
  "try_except body handler = (case body of Inl e \<Rightarrow> handler e | Inr v \<Rightarrow> Inr v)"

definition dict_keys :: "('k \<times> 'v) list \<Rightarrow> 'k list" where
  "dict_keys d = map fst d"

text \<open>
  \<open>self.subscriptions\<close> is a \<open>defaultdict(set)\<close>: reading a topic that has no entry gives
  the empty set (and the write that follows in \<open>subscribe\<close> and \<open>unsubscribe\<close> stores the
  entry).
\<close>

definition bucket :: "(topic \<times> client_id list) list \<Rightarrow> topic \<Rightarrow> client_id list" where
  "bucket subs t = (case map_of subs t of None \<Rightarrow> [] | Some b \<Rightarrow> b)"

subsection \<open>\<open>ConnectionManager\<close>\<close>

definition connect ::
  "transport \<Rightarrow> manager \<Rightarrow> websocket \<Rightarrow> client_id \<Rightarrow> metadata \<Rightarrow> error + manager" where
  "connect tr m ws cid md =
     (if accept_raises tr ws then Inl WebSocketError
      else Inr (m\<lparr>active_connections := AList.update cid ws (active_connections m),
                  connection_metadata := AList.update cid md (connection_metadata m)\<rparr>))"

definition disconnect :: "manager \<Rightarrow> client_id \<Rightarrow> manager" where
  "disconnect m cid =
     (if cid \<in> set (dict_keys (active_connections m)) then
        m\<lparr>active_connections := AList.delete cid (active_connections m),
          subscriptions := map (\<lambda>(t, b). (t, removeAll cid b)) (subscriptions m),
          connection_metadata :=
            (if cid \<in> set (dict_keys (connection_metadata m))
             then AList.delete cid (connection_metadata m)
             else connection_metadata m)\<rparr>
      else m)"

definition send_json ::
  "transport \<Rightarrow> world \<Rightarrow> client_id \<Rightarrow> websocket \<Rightarrow> message \<Rightarrow> error + world" where
  "send_json tr w cid ws msg =
     (if send_raises tr ws msg then Inl WebSocketError
      else Inr (w\<lparr>wire := wire w @ [(cid, ws, msg)]\<rparr>))"

definition send_personal_message ::
  "transport \<Rightarrow> world \<Rightarrow> message \<Rightarrow> client_id \<Rightarrow> error + world" where
  "send_personal_message tr w msg cid =
     (case map_of (active_connections (mgr w)) cid of
        None \<Rightarrow> Inr w
      | Some ws \<Rightarrow>
          try_except (send_json tr w cid ws msg)
            (\<lambda>e. Inr (w\<lparr>mgr := disconnect (mgr w) cid\<rparr>)))"

text \<open>
  The first loop of \<open>broadcast\<close>. No statement of the loop changes the manager, so the
  test \<open>client_id in self.active_connections\<close> reads the manager of the call's start.
\<close>

fun broadcast_sends ::
  "transport \<Rightarrow> message \<Rightarrow> client_id list \<Rightarrow> world \<times> client_id list \<Rightarrow>
   error + (world \<times> client_id list)" where
  "broadcast_sends tr msg [] st = Inr st"
| "broadcast_sends tr msg (cid # rest) (w, disconnected_clients) =
     (case (case map_of (active_connections (mgr w)) cid of
              None \<Rightarrow> Inr (w, disconnected_clients)
            | Some ws \<Rightarrow>
                try_except
                  (map_sum id (\<lambda>w'. (w', disconnected_clients)) (send_json tr w cid ws msg))
                  (\<lambda>e. Inr (w, disconnected_clients @ [cid]))) of
        Inl e \<Rightarrow> Inl e
      | Inr st' \<Rightarrow> broadcast_sends tr msg rest st')"

text \<open>
  The recipients. \<open>message_type\<close> is \<open>None\<close> or a string; the test
  \<open>message_type and message_type in self.subscriptions\<close> is false for \<open>None\<close>, for the
  empty string and for a topic with no entry, and then the recipients are
  \<open>set(self.active_connections.keys())\<close>.
\<close>

definition recipients_of :: "manager \<Rightarrow> topic option \<Rightarrow> client_id list" where
  "recipients_of m message_type =
     (case message_type of
        None \<Rightarrow> remdups (dict_keys (active_connections m))
      | Some t \<Rightarrow>
          if t \<noteq> [] \<and> t \<in> set (dict_keys (subscriptions m))
          then bucket (subscriptions m) t
          else remdups (dict_keys (active_connections m)))"

definition broadcast :: "transport \<Rightarrow> world \<Rightarrow> message \<Rightarrow> topic option \<Rightarrow> error + world" where
  "broadcast tr w msg message_type =
     (case broadcast_sends tr msg (recipients_of (mgr w) message_type) (w, []) of
        Inl e \<Rightarrow> Inl e
      | Inr (w', disconnected_clients) \<Rightarrow>
          Inr (w'\<lparr>mgr := fold (\<lambda>cid m. disconnect m cid) disconnected_clients (mgr w')\<rparr>))"

fun subscribe :: "manager \<Rightarrow> client_id \<Rightarrow> topic list \<Rightarrow> manager" where
  "subscribe m cid [] = m"
| "subscribe m cid (t # ts) =
     subscribe
       (m\<lparr>subscriptions :=
            AList.update t (List.insert cid (bucket (subscriptions m) t)) (subscriptions m)\<rparr>)
       cid ts"

fun unsubscribe :: "manager \<Rightarrow> client_id \<Rightarrow> topic list \<Rightarrow> manager" where
  "unsubscribe m cid [] = m"
| "unsubscribe m cid (t # ts) =
     unsubscribe
       (m\<lparr>subscriptions :=
            AList.update t (removeAll cid (bucket (subscriptions m) t)) (subscriptions m)\<rparr>)
       cid ts"

subsection \<open>The metrics pump: \<open>get_live_metrics\<close> and \<open>send_metrics_updates\<close>\<close>

text \<open>
  What \<open>db.execute_one\<close> does on one call: it raises, it returns \<open>None\<close>, or it returns
  a row.
\<close>

datatype 'r db_outcome = DbRaises | DbNone | DbRow 'r

definition execute_one :: "'r db_outcome \<Rightarrow> error + 'r option" where
  "execute_one q = (case q of DbRaises \<Rightarrow> Inl DatabaseError | DbNone \<Rightarrow> Inr None | DbRow r \<Rightarrow> Inr (Some r))"

text \<open>
  The row of the live-metrics query. The two sums are the numbers that \<open>float(...)\<close>
  returns for them.
\<close>

record live_row =
  orders_today :: int
  revenue_today :: rat
  customers_today :: int
  orders_last_hour :: int
  last_hour_revenue :: rat

text \<open>
  Subscripting the result \<open>None\<close> raises \<open>TypeError\<close>. The whole body is inside
  \<open>try\<close>/\<open>except Exception\<close>, whose handler returns the empty dictionary.
\<close>

definition get_live_metrics :: "live_row db_outcome \<Rightarrow> error + (string \<times> json) list" where
  "get_live_metrics q =
     try_except
       (case execute_one q of
          Inl e \<Rightarrow> Inl e
        | Inr None \<Rightarrow> Inl TypeError
        | Inr (Some result) \<Rightarrow>
            Inr [(''ordersToday'', JInt (orders_today result)),
                 (''revenueToday'', JFloat (revenue_today result)),
                 (''customersToday'', JInt (customers_today result)),
                 (''ordersLastHour'', JInt (orders_last_hour result)),
                 (''lastHourRevenue'', JFloat (last_hour_revenue result)),
                 (''totalRevenue'', JFloat (revenue_today result)),
                 (''activeCustomers'', JInt (customers_today result))])
       (\<lambda>e. Inr [])"

definition metrics_message :: "(string \<times> json) list \<Rightarrow> string \<Rightarrow> message" where
  "metrics_message metrics now =
     [(''type'', JStr ''metrics''), (''data'', JDict metrics), (''timestamp'', JStr now)]"

text \<open>
  One tick of the pump is one run of the loop body: it consumes one outcome of the database
  and one reading of the clock. The loop \<open>while client_id in manager.active_connections\<close>
  has no bound of its own; the list of ticks is its fuel. \<open>Stopped\<close> says that the loop was
  left (its condition was false, or the handler's \<open>break\<close> ran); \<open>Running\<close> says that the
  ticks are used up with the condition still true, so that the loop goes on to a next tick.
  \<open>asyncio.sleep\<close> changes nothing in the state.
\<close>

datatype pump_state = Running | Stopped

definition pump_body ::
  "transport \<Rightarrow> client_id \<Rightarrow> live_row db_outcome \<times> string \<Rightarrow> world \<Rightarrow> error + world" where
  "pump_body tr cid tick w =
     (case get_live_metrics (fst tick) of
        Inl e \<Rightarrow> Inl e
      | Inr metrics \<Rightarrow> send_personal_message tr w (metrics_message metrics (snd tick)) cid)"

fun send_metrics_updates ::
  "transport \<Rightarrow> client_id \<Rightarrow> (live_row db_outcome \<times> string) list \<Rightarrow> world \<Rightarrow>
   world \<times> pump_state" where
  "send_metrics_updates tr cid [] w =
     (if cid \<in> set (dict_keys (active_connections (mgr w))) then (w, Running) else (w, Stopped))"
| "send_metrics_updates tr cid (tick # ticks) w =
     (if cid \<in> set (dict_keys (active_connections (mgr w))) then
        (case pump_body tr cid tick w of
           Inl e \<Rightarrow> (w, Stopped)
         | Inr w' \<Rightarrow> send_metrics_updates tr cid ticks w')
      else (w, Stopped))"

subsection \<open>The monitor: \<open>monitor_business_metrics\<close>\<close>























subsection \<open>Sequences of registry operations, and what is read off a state\<close>

datatype op =
    Connect websocket client_id metadata
  | Disconnect client_id
  | Subscribe client_id "topic list"
  | Unsubscribe client_id "topic list"

text \<open>
  A call of \<open>connect\<close> whose \<open>accept\<close> raises leaves the manager as it was: the exception
  ends the caller, and the manager lives on.
\<close>

fun apply_op :: "transport \<Rightarrow> manager \<Rightarrow> op \<Rightarrow> manager" where
  "apply_op tr m (Connect ws cid md) = (case connect tr m ws cid md of Inl e \<Rightarrow> m | Inr m' \<Rightarrow> m')"
| "apply_op tr m (Disconnect cid) = disconnect m cid"
| "apply_op tr m (Subscribe cid ts) = subscribe m cid ts"
| "apply_op tr m (Unsubscribe cid ts) = unsubscribe m cid ts"

fun run :: "transport \<Rightarrow> manager \<Rightarrow> op list \<Rightarrow> manager" where
  "run tr m [] = m"
| "run tr m (x # xs) = run tr (apply_op tr m x) xs"

text \<open>Every \<open>Subscribe\<close> of the sequence names a client id that is registered when it runs.\<close>

fun subscribes_registered :: "transport \<Rightarrow> manager \<Rightarrow> op list \<Rightarrow> bool" where
  "subscribes_registered tr m [] = True"
| "subscribes_registered tr m (x # xs) =
     ((case x of Subscribe cid ts \<Rightarrow> cid \<in> set (dict_keys (active_connections m)) | _ \<Rightarrow> True)
      \<and> subscribes_registered tr (apply_op tr m x) xs)"

text \<open>No bucket of the topic index holds an id that is not a key of \<open>active_connections\<close>.\<close>

definition no_orphans :: "manager \<Rightarrow> bool" where
  "no_orphans m =
     (\<forall>(t, b) \<in> set (subscriptions m). \<forall>cid \<in> set b. cid \<in> set (dict_keys (active_connections m)))"

text \<open>The buckets are sets: no id occurs twice in one of them.\<close>

definition buckets_distinct :: "manager \<Rightarrow> bool" where
  "buckets_distinct m = (\<forall>(t, b) \<in> set (subscriptions m). distinct b)"

text \<open>The messages that were sent to a client id, oldest first.\<close>

definition received :: "delivery list \<Rightarrow> client_id \<Rightarrow> message list" where
  "received wr cid = map (\<lambda>d. snd (snd d)) (filter (\<lambda>d. fst d = cid) wr)"

text \<open>
  What the first loop of \<open>broadcast\<close> amounts to, for the lemmas below: the frames it
  sends, and the ids it collects in \<open>disconnected_clients\<close>.
\<close>

definition deliveries :: "transport \<Rightarrow> manager \<Rightarrow> message \<Rightarrow> client_id list \<Rightarrow> delivery list" where
  "deliveries tr m msg rs =
     concat (map (\<lambda>cid. case map_of (active_connections m) cid of
                           None \<Rightarrow> []
                         | Some ws \<Rightarrow> if send_raises tr ws msg then [] else [(cid, ws, msg)]) rs)"

definition failures :: "transport \<Rightarrow> manager \<Rightarrow> message \<Rightarrow> client_id list \<Rightarrow> client_id list" where
  "failures tr m msg rs =
     filter (\<lambda>cid. case map_of (active_connections m) cid of
                     None \<Rightarrow> False
                   | Some ws \<Rightarrow> send_raises tr ws msg) rs"

text \<open>An id that is neither registered nor a member of a bucket.\<close>

definition gone :: "manager \<Rightarrow> client_id \<Rightarrow> bool" where
  "gone m cid =
     (cid \<notin> set (dict_keys (active_connections m))
      \<and> (\<forall>(t, b) \<in> set (subscriptions m). cid \<notin> set b))"

subsection \<open>States and transports of the examples\<close>

definition healthy :: transport where
  "healthy = \<lparr>accept_raises = (\<lambda>ws. False), send_raises = (\<lambda>ws msg. False)\<rparr>"

text \<open>Sending on web socket 1 raises; every other web socket works.\<close>

definition one_broken :: transport where
  "one_broken = \<lparr>accept_raises = (\<lambda>ws. False), send_raises = (\<lambda>ws msg. ws = 1)\<rparr>"

definition m_two :: manager where
  "m_two =
     \<lparr>active_connections = [(''a'', 1), (''b'', 2)],
      subscriptions = [(''alert'', [''a'', ''b'']), (''order_placed'', [''a''])],
      connection_metadata =
        [(''a'', \<lparr>connected_at = 5, last_ping = 5\<rparr>), (''b'', \<lparr>connected_at = 7, last_ping = 7\<rparr>)]\<rparr>"

definition alert_msg :: message where
  "alert_msg = [(''type'', JStr ''alert''), (''data'', JDict []), (''timestamp'', JStr ''t0'')]"

text \<open>One registered client and no topic at all; the same with an empty bucket for \<open>alert\<close>.\<close>

definition w_absent :: world where
  "w_absent =
     \<lparr>mgr = \<lparr>active_connections = [(''s'', 1)], subscriptions = [],
             connection_metadata = [(''s'', \<lparr>connected_at = 5, last_ping = 5\<rparr>)]\<rparr>,
      wire = []\<rparr>"

definition w_empty :: world where
  "w_empty =
     \<lparr>mgr = \<lparr>active_connections = [(''s'', 1)], subscriptions = [(''alert'', [])],
             connection_metadata = [(''s'', \<lparr>connected_at = 5, last_ping = 5\<rparr>)]\<rparr>,
      wire = []\<rparr>"

definition w_two :: world where
  "w_two = \<lparr>mgr = m_two, wire = []\<rparr>"

text \<open>The bucket of \<open>alert\<close> holds \<open>ghost\<close>, which is not registered, and \<open>b\<close>, which is.\<close>

definition w_orphan :: world where
  "w_orphan =
     \<lparr>mgr = \<lparr>active_connections = [(''b'', 2)], subscriptions = [(''alert'', [''ghost'', ''b''])],
             connection_metadata = [(''b'', \<lparr>connected_at = 7, last_ping = 7\<rparr>)]\<rparr>,
      wire = []\<rparr>"

text \<open>A run in which every \<open>Subscribe\<close> names a registered id.\<close>

definition ops_ok :: "op list" where
  "ops_ok =
     [Connect 1 ''a'' \<lparr>connected_at = 5, last_ping = 5\<rparr>,
      Subscribe ''a'' [''alert'', ''order_placed''],
      Connect 2 ''b'' \<lparr>connected_at = 7, last_ping = 7\<rparr>,
      Subscribe ''b'' [''alert''],
      Unsubscribe ''zz'' [''metrics''],
      Disconnect ''a'']"






text \<open>
  The pump example: a row, the dictionary that \<open>get_live_metrics\<close> makes of it, and three
  ticks of which the second finds the database failing.
\<close>

definition row0 :: live_row where
  "row0 = \<lparr>orders_today = 12, revenue_today = 3400, customers_today = 9,
           orders_last_hour = 2, last_hour_revenue = 150\<rparr>"

definition metrics0 :: "(string \<times> json) list" where
  "metrics0 =
     [(''ordersToday'', JInt 12), (''revenueToday'', JFloat 3400), (''customersToday'', JInt 9),
      (''ordersLastHour'', JInt 2), (''lastHourRevenue'', JFloat 150),
      (''totalRevenue'', JFloat 3400), (''activeCustomers'', JInt 9)]"

definition pump_ticks :: "(live_row db_outcome \<times> string) list" where
  "pump_ticks = [(DbRow row0, ''t1''), (DbRaises, ''t2''), (DbRow row0, ''t3'')]"

section \<open>Properties\<close>

subsection \<open>\<open>disconnect\<close>\<close>

lemma disconnect_absent:
  "cid \<notin> set (dict_keys (active_connections m)) \<Longrightarrow> disconnect m cid = m"
  by (simp add: disconnect_def)

lemma disconnect_not_active:
  "cid \<notin> set (dict_keys (active_connections (disconnect m cid)))"
  by (simp add: disconnect_def dict_keys_def AList.delete_notin_dom)

lemma disconnect_purged:
  "cid \<in> set (dict_keys (active_connections m)) \<Longrightarrow>
   (t, b) \<in> set (subscriptions (disconnect m cid)) \<Longrightarrow> cid \<notin> set b"
  by (auto simp: disconnect_def)

lemma disconnect_no_metadata:
  "cid \<in> set (dict_keys (active_connections m)) \<Longrightarrow>
   cid \<notin> set (dict_keys (connection_metadata (disconnect m cid)))"
  by (simp add: disconnect_def dict_keys_def AList.delete_notin_dom)

text \<open>
  Claim C8. \<open>disconnect\<close> (the spec's \<open>unregister\<close>) returns a manager and raises nothing.
  For an id that is not registered it returns the manager unchanged, in all three
  dictionaries; calling it twice gives the state of calling it once; for a registered id
  the id is afterwards a key of neither \<open>active_connections\<close> nor \<open>connection_metadata\<close>
  and a member of no bucket, and the topics of the index are the same as before.
\<close>

theorem disconnect_idempotent:
  "(cid \<notin> set (dict_keys (active_connections m)) \<longrightarrow> disconnect m cid = m)
   \<and> disconnect (disconnect m cid) cid = disconnect m cid
   \<and> (cid \<in> set (dict_keys (active_connections m)) \<longrightarrow>
        cid \<notin> set (dict_keys (active_connections (disconnect m cid)))
        \<and> cid \<notin> set (dict_keys (connection_metadata (disconnect m cid)))
        \<and> (\<forall>(t, b) \<in> set (subscriptions (disconnect m cid)). cid \<notin> set b)
        \<and> dict_keys (subscriptions (disconnect m cid)) = dict_keys (subscriptions m))"
proof (intro conjI impI)
  show "disconnect (disconnect m cid) cid = disconnect m cid"
    by (rule disconnect_absent) (rule disconnect_not_active)
next
  assume "cid \<in> set (dict_keys (active_connections m))"
  then show "\<forall>(t, b) \<in> set (subscriptions (disconnect m cid)). cid \<notin> set b"
    using disconnect_purged by blast
next
  assume "cid \<in> set (dict_keys (active_connections m))"
  then show "dict_keys (subscriptions (disconnect m cid)) = dict_keys (subscriptions m)"
    by (simp add: disconnect_def dict_keys_def case_prod_unfold comp_def)
qed (simp_all add: disconnect_absent disconnect_not_active disconnect_no_metadata)

theorem disconnect_idempotent_witness:
  "''zz'' \<notin> set (dict_keys (active_connections m_two))
   \<and> disconnect m_two ''zz'' = m_two
   \<and> ''a'' \<in> set (dict_keys (active_connections m_two))
   \<and> disconnect (disconnect m_two ''a'') ''a'' = disconnect m_two ''a''
   \<and> disconnect m_two ''a'' =
       \<lparr>active_connections = [(''b'', 2)],
        subscriptions = [(''alert'', [''b'']), (''order_placed'', [])],
        connection_metadata = [(''b'', \<lparr>connected_at = 7, last_ping = 7\<rparr>)]\<rparr>"
  using disconnect_idempotent [of "''zz''" m_two] disconnect_idempotent [of "''a''" m_two]
  by (simp add: m_two_def disconnect_def dict_keys_def)

subsection \<open>\<open>connect\<close>\<close>

text \<open>
  Claim C6, as the code has it. \<open>connect\<close> has no test for an id that is already
  registered: the only way it fails is \<open>accept\<close> raising. When \<open>accept\<close> returns, the call
  returns, the id is registered with the new web socket and the new metadata whatever was
  stored under it before, and the topic index is untouched.
\<close>

theorem connect_overwrites:
  "\<not> accept_raises tr ws \<Longrightarrow>
     (\<exists>m'. connect tr m ws cid md = Inr m'
        \<and> map_of (active_connections m') cid = Some ws
        \<and> map_of (connection_metadata m') cid = Some md
        \<and> subscriptions m' = subscriptions m
        \<and> set (dict_keys (active_connections m')) =
            insert cid (set (dict_keys (active_connections m))))"
  by (auto simp: connect_def AList.update_conv' dict_keys_def AList.dom_update)

theorem connect_overwrites_witness:
  "\<not> accept_raises healthy 9
   \<and> ''a'' \<in> set (dict_keys (active_connections m_two))
   \<and> (\<exists>m'. connect healthy m_two 9 ''a'' \<lparr>connected_at = 40, last_ping = 41\<rparr> = Inr m'
        \<and> map_of (active_connections m') ''a'' = Some 9
        \<and> map_of (connection_metadata m') ''a'' = Some \<lparr>connected_at = 40, last_ping = 41\<rparr>)"
  using connect_overwrites [of healthy 9 m_two "''a''" "\<lparr>connected_at = 40, last_ping = 41\<rparr>"]
  by (auto simp: healthy_def m_two_def dict_keys_def)

text \<open>
  Claim C6 as stated fails: the id \<open>a\<close> is registered in \<open>m_two\<close> with web socket 1, and
  registering it again with web socket 9 returns normally, with the old web socket and the
  old metadata replaced.
\<close>

theorem connect_duplicate_counterexample:
  "connect healthy m_two 9 ''a'' \<lparr>connected_at = 40, last_ping = 41\<rparr> =
     Inr \<lparr>active_connections = [(''a'', 9), (''b'', 2)],
          subscriptions = [(''alert'', [''a'', ''b'']), (''order_placed'', [''a''])],
          connection_metadata =
            [(''a'', \<lparr>connected_at = 40, last_ping = 41\<rparr>),
             (''b'', \<lparr>connected_at = 7, last_ping = 7\<rparr>)]\<rparr>"
  by (simp add: connect_def healthy_def m_two_def)

subsection \<open>\<open>subscribe\<close> and \<open>unsubscribe\<close>\<close>

lemma bucket_update:
  "bucket (AList.update t b subs) t' = (if t' = t then b else bucket subs t')"
  by (simp add: bucket_def AList.update_conv')

lemma subscribe_other_fields:
  "active_connections (subscribe m cid ts) = active_connections m
   \<and> connection_metadata (subscribe m cid ts) = connection_metadata m"
  by (induction ts arbitrary: m) simp_all

lemma unsubscribe_other_fields:
  "active_connections (unsubscribe m cid ts) = active_connections m
   \<and> connection_metadata (unsubscribe m cid ts) = connection_metadata m"
  by (induction ts arbitrary: m) simp_all

lemma subscribe_bucket:
  "set (bucket (subscriptions (subscribe m cid ts)) t) =
     (if t \<in> set ts then insert cid (set (bucket (subscriptions m) t))
      else set (bucket (subscriptions m) t))"
  by (induction ts arbitrary: m) (auto simp: bucket_update)

lemma unsubscribe_bucket:
  "set (bucket (subscriptions (unsubscribe m cid ts)) t) =
     (if t \<in> set ts then set (bucket (subscriptions m) t) - {cid}
      else set (bucket (subscriptions m) t))"
  by (induction ts arbitrary: m) (auto simp: bucket_update)

lemma subscribe_keys:
  "set (dict_keys (subscriptions (subscribe m cid ts))) =
     set (dict_keys (subscriptions m)) \<union> set ts"
  by (induction ts arbitrary: m) (auto simp: dict_keys_def AList.dom_update)

lemma unsubscribe_keys:
  "set (dict_keys (subscriptions (unsubscribe m cid ts))) =
     set (dict_keys (subscriptions m)) \<union> set ts"
  by (induction ts arbitrary: m) (auto simp: dict_keys_def AList.dom_update)

text \<open>
  Claim C7, as the code has it. \<open>subscribe\<close> and \<open>unsubscribe\<close> return a manager for every
  id and never look at \<open>active_connections\<close>. After \<open>subscribe\<close> the id is in the bucket of
  every topic of the list, registered or not; \<open>unsubscribe\<close> puts the id into no bucket
  (where the id is afterwards, it was before, and the topic was not in the list); neither
  changes \<open>active_connections\<close>.
\<close>

theorem subscribe_unchecked:
  "(\<forall>t \<in> set ts. cid \<in> set (bucket (subscriptions (subscribe m cid ts)) t))
   \<and> active_connections (subscribe m cid ts) = active_connections m
   \<and> (\<forall>t. cid \<in> set (bucket (subscriptions (unsubscribe m cid ts)) t)
          \<longrightarrow> cid \<in> set (bucket (subscriptions m) t) \<and> t \<notin> set ts)
   \<and> active_connections (unsubscribe m cid ts) = active_connections m"
  by (simp add: subscribe_bucket unsubscribe_bucket subscribe_other_fields
      unsubscribe_other_fields)

theorem subscribe_unchecked_witness:
  "''ghost'' \<notin> set (dict_keys (active_connections init_manager))
   \<and> ''ghost'' \<in> set (bucket (subscriptions (subscribe init_manager ''ghost'' [''alert''])) ''alert'')
   \<and> ''ghost'' \<notin> set (bucket (subscriptions (unsubscribe init_manager ''ghost'' [''alert''])) ''alert'')"
  using subscribe_unchecked [of "[''alert'']" "''ghost''" init_manager]
  by (simp add: init_manager_def dict_keys_def bucket_def)

text \<open>
  Claim C7 as stated fails: on the empty manager no id is registered, and subscribing the
  id \<open>ghost\<close> to \<open>alert\<close> returns normally with \<open>ghost\<close> in the bucket of \<open>alert\<close>.
\<close>

theorem subscribe_unknown_counterexample:
  "''ghost'' \<notin> set (dict_keys (active_connections init_manager))
   \<and> subscribe init_manager ''ghost'' [''alert''] =
       \<lparr>active_connections = [], subscriptions = [(''alert'', [''ghost''])],
        connection_metadata = []\<rparr>"
  by (simp add: init_manager_def dict_keys_def bucket_def)

subsection \<open>\<open>broadcast\<close>\<close>

lemma keys_delete: "set (dict_keys (AList.delete d al)) = set (dict_keys al) - {d}"
  by (simp only: dict_keys_def AList.delete_keys set_removeAll)

lemma in_keys_iff: "k \<in> set (dict_keys al) \<longleftrightarrow> map_of al k \<noteq> None"
  by (simp add: dict_keys_def map_of_eq_None_iff)

lemma deliveries_Nil: "deliveries tr m msg [] = []"
  by (simp add: deliveries_def)

lemma deliveries_Cons:
  "deliveries tr m msg (r # rs) =
     (case map_of (active_connections m) r of
        None \<Rightarrow> []
      | Some ws \<Rightarrow> if send_raises tr ws msg then [] else [(r, ws, msg)])
     @ deliveries tr m msg rs"
  by (simp add: deliveries_def)

lemma broadcast_sends_eq:
  "broadcast_sends tr msg rs (w, d) =
     Inr (w\<lparr>wire := wire w @ deliveries tr (mgr w) msg rs\<rparr>, d @ failures tr (mgr w) msg rs)"
proof (induction rs arbitrary: w d)
  case Nil
  show ?case by (simp add: deliveries_def failures_def)
next
  case (Cons cid rs)
  show ?case
  proof (cases "map_of (active_connections (mgr w)) cid")
    case None
    then show ?thesis using Cons by (simp add: deliveries_def failures_def)
  next
    case (Some ws)
    then show ?thesis using Cons
      by (simp add: deliveries_def failures_def try_except_def send_json_def)
  qed
qed

lemma broadcast_eq:
  "broadcast tr w msg mt =
     Inr \<lparr>mgr = fold (\<lambda>cid m. disconnect m cid)
                  (failures tr (mgr w) msg (recipients_of (mgr w) mt)) (mgr w),
          wire = wire w @ deliveries tr (mgr w) msg (recipients_of (mgr w) mt)\<rparr>"
  by (simp add: broadcast_def broadcast_sends_eq)

lemma received_append: "received (wr @ wr') c = received wr c @ received wr' c"
  by (simp add: received_def)

lemma received_deliveries_absent:
  "c \<notin> set rs \<Longrightarrow> received (deliveries tr m msg rs) c = []"
  by (induction rs) (auto simp: deliveries_def received_def split: option.splits)

lemma received_deliveries_unregistered:
  "c \<notin> set (dict_keys (active_connections m)) \<Longrightarrow> received (deliveries tr m msg rs) c = []"
proof -
  assume "c \<notin> set (dict_keys (active_connections m))"
  then have n: "map_of (active_connections m) c = None"
    by (simp add: dict_keys_def map_of_eq_None_iff)
  show ?thesis
    by (induction rs) (auto simp: deliveries_def received_def n split: option.splits)
qed

lemma received_deliveries_distinct:
  "distinct rs \<Longrightarrow> length (received (deliveries tr m msg rs) c) \<le> 1"
proof (induction rs)
  case Nil
  show ?case by (simp add: deliveries_def received_def)
next
  case (Cons r rs)
  show ?case
  proof (cases "r = c")
    case True
    with Cons.prems have "c \<notin> set rs" by simp
    then have "received (deliveries tr m msg rs) c = []" by (rule received_deliveries_absent)
    then show ?thesis
      by (auto simp: deliveries_def received_def split: option.splits)
  next
    case False
    with Cons show ?thesis
      by (auto simp: deliveries_def received_def split: option.splits)
  qed
qed

lemma received_deliveries_once:
  "distinct rs \<Longrightarrow> c \<in> set rs \<Longrightarrow> map_of (active_connections m) c = Some ws \<Longrightarrow>
   \<not> send_raises tr ws msg \<Longrightarrow> received (deliveries tr m msg rs) c = [msg]"
proof (induction rs)
  case Nil
  then show ?case by simp
next
  case (Cons r rs)
  show ?case
  proof (cases "r = c")
    case True
    with Cons.prems have "c \<notin> set rs" by simp
    then have "received (deliveries tr m msg rs) c = []" by (rule received_deliveries_absent)
    with True Cons.prems show ?thesis
      by (simp add: deliveries_def received_def)
  next
    case False
    with Cons have "received (deliveries tr m msg rs) c = [msg]" by simp
    with False show ?thesis
      by (auto simp: deliveries_def received_def split: option.splits)
  qed
qed

lemma deliveries_member:
  "c \<in> set rs \<Longrightarrow> map_of (active_connections m) c = Some ws \<Longrightarrow> \<not> send_raises tr ws msg \<Longrightarrow>
   (c, ws, msg) \<in> set (deliveries tr m msg rs)"
  by (induction rs) (auto simp: deliveries_Cons)

lemma deliveries_registered:
  "d \<in> set (deliveries tr m msg rs) \<Longrightarrow> fst d \<in> set (dict_keys (active_connections m))"
proof (induction rs)
  case Nil
  then show ?case by (simp add: deliveries_Nil)
next
  case (Cons r rs)
  then show ?case
    by (cases "map_of (active_connections m) r")
      (auto simp: deliveries_Cons in_keys_iff split: if_splits)
qed

lemma failures_member:
  "c \<in> set rs \<Longrightarrow> map_of (active_connections m) c = Some ws \<Longrightarrow> send_raises tr ws msg \<Longrightarrow>
   c \<in> set (failures tr m msg rs)"
  by (simp add: failures_def)

lemma gone_disconnect_self:
  "cid \<in> set (dict_keys (active_connections m)) \<Longrightarrow> gone (disconnect m cid) cid"
  unfolding gone_def using disconnect_not_active disconnect_purged by blast

lemma gone_disconnect_other: "gone m cid \<Longrightarrow> gone (disconnect m d) cid"
  by (auto simp: gone_def disconnect_def keys_delete)

lemma active_disconnect_other:
  "cid \<noteq> d \<Longrightarrow> cid \<in> set (dict_keys (active_connections m)) \<Longrightarrow>
   cid \<in> set (dict_keys (active_connections (disconnect m d)))"
  by (simp add: disconnect_def keys_delete)

lemma gone_fold_preserved:
  "gone m cid \<Longrightarrow> gone (fold (\<lambda>c m. disconnect m c) ds m) cid"
  by (induction ds arbitrary: m) (simp_all add: gone_disconnect_other)

lemma gone_fold:
  "cid \<in> set ds \<Longrightarrow> cid \<in> set (dict_keys (active_connections m)) \<Longrightarrow>
   gone (fold (\<lambda>c m. disconnect m c) ds m) cid"
proof (induction ds arbitrary: m)
  case Nil
  then show ?case by simp
next
  case (Cons d ds)
  show ?case
  proof (cases "d = cid")
    case True
    with Cons.prems show ?thesis
      by (simp add: gone_fold_preserved gone_disconnect_self)
  next
    case False
    with Cons show ?thesis
      by (simp add: active_disconnect_other)
  qed
qed

lemma gone_not_recipient: "gone m cid \<Longrightarrow> cid \<notin> set (recipients_of m mt)"
  by (auto simp: gone_def recipients_of_def bucket_def split: option.splits dest!: map_of_SomeD [OF sym])

text \<open>
  Claim C1, as the code has it. A broadcast on a topic that is not the empty string and has
  an entry in the index (with members or empty) sends nothing to an id outside the entry's
  bucket, and it sends the frame to every member of the bucket that is registered and whose
  send does not raise. A topic that has no entry, and likewise the empty string, is not
  treated as an empty bucket: a broadcast on it is the broadcast without a topic, and every
  registered client whose send does not raise gets the frame, exactly once.
\<close>

theorem broadcast_topic_isolation:
  "(t \<noteq> [] \<and> t \<in> set (dict_keys (subscriptions (mgr w)))
      \<and> s \<notin> set (bucket (subscriptions (mgr w)) t)
    \<longrightarrow> (\<exists>w'. broadcast tr w msg (Some t) = Inr w' \<and> received (wire w') s = received (wire w) s))
   \<and> (t \<noteq> [] \<and> t \<in> set (dict_keys (subscriptions (mgr w)))
    \<longrightarrow> (\<exists>w'. broadcast tr w msg (Some t) = Inr w'
          \<and> (\<forall>c ws. c \<in> set (bucket (subscriptions (mgr w)) t)
                  \<and> map_of (active_connections (mgr w)) c = Some ws \<and> \<not> send_raises tr ws msg
                \<longrightarrow> (c, ws, msg) \<in> set (drop (length (wire w)) (wire w')))))
   \<and> (t = [] \<or> t \<notin> set (dict_keys (subscriptions (mgr w)))
    \<longrightarrow> broadcast tr w msg (Some t) = broadcast tr w msg None
        \<and> (\<exists>w'. broadcast tr w msg (Some t) = Inr w'
              \<and> (\<forall>c ws. map_of (active_connections (mgr w)) c = Some ws \<and> \<not> send_raises tr ws msg
                    \<longrightarrow> received (wire w') c = received (wire w) c @ [msg])))"
proof (intro conjI impI)
  assume a: "t \<noteq> [] \<and> t \<in> set (dict_keys (subscriptions (mgr w)))
      \<and> s \<notin> set (bucket (subscriptions (mgr w)) t)"
  then have r: "recipients_of (mgr w) (Some t) = bucket (subscriptions (mgr w)) t"
    by (simp add: recipients_of_def)
  with a have "received (deliveries tr (mgr w) msg (recipients_of (mgr w) (Some t))) s = []"
    by (simp add: received_deliveries_absent)
  then show "\<exists>w'. broadcast tr w msg (Some t) = Inr w' \<and> received (wire w') s = received (wire w) s"
    by (simp add: broadcast_eq received_append)
next
  assume a: "t \<noteq> [] \<and> t \<in> set (dict_keys (subscriptions (mgr w)))"
  then have r: "recipients_of (mgr w) (Some t) = bucket (subscriptions (mgr w)) t"
    by (simp add: recipients_of_def)
  show "\<exists>w'. broadcast tr w msg (Some t) = Inr w'
          \<and> (\<forall>c ws. c \<in> set (bucket (subscriptions (mgr w)) t)
                  \<and> map_of (active_connections (mgr w)) c = Some ws \<and> \<not> send_raises tr ws msg
                \<longrightarrow> (c, ws, msg) \<in> set (drop (length (wire w)) (wire w')))"
    using deliveries_member by (simp add: broadcast_eq r)
next
  assume a: "t = [] \<or> t \<notin> set (dict_keys (subscriptions (mgr w)))"
  then have r: "recipients_of (mgr w) (Some t) = remdups (dict_keys (active_connections (mgr w)))"
    by (auto simp: recipients_of_def)
  then have "recipients_of (mgr w) (Some t) = recipients_of (mgr w) None"
    by (simp add: recipients_of_def)
  then show "broadcast tr w msg (Some t) = broadcast tr w msg None"
    by (simp add: broadcast_def)
  have once: "received (deliveries tr (mgr w) msg (remdups (dict_keys (active_connections (mgr w))))) c = [msg]"
    if "map_of (active_connections (mgr w)) c = Some ws" "\<not> send_raises tr ws msg" for c ws
  proof (rule received_deliveries_once [where ws = ws])
    show "distinct (remdups (dict_keys (active_connections (mgr w))))" by simp
    show "c \<in> set (remdups (dict_keys (active_connections (mgr w))))"
      using that(1) by (simp add: in_keys_iff)
  qed (use that in simp_all)
  then show "\<exists>w'. broadcast tr w msg (Some t) = Inr w'
              \<and> (\<forall>c ws. map_of (active_connections (mgr w)) c = Some ws \<and> \<not> send_raises tr ws msg
                    \<longrightarrow> received (wire w') c = received (wire w) c @ [msg])"
    by (auto simp: broadcast_eq r received_append)
qed

theorem broadcast_topic_isolation_witness:
  "''order_placed'' \<noteq> [] \<and> ''order_placed'' \<in> set (dict_keys (subscriptions (mgr w_two)))
   \<and> ''b'' \<notin> set (bucket (subscriptions (mgr w_two)) ''order_placed'')
   \<and> ''a'' \<in> set (bucket (subscriptions (mgr w_two)) ''order_placed'')
   \<and> broadcast healthy w_two alert_msg (Some ''order_placed'') =
       Inr (w_two\<lparr>wire := [(''a'', 1, alert_msg)]\<rparr>)
   \<and> ''nobody'' \<notin> set (dict_keys (subscriptions (mgr w_two)))
   \<and> broadcast healthy w_two alert_msg (Some ''nobody'') = broadcast healthy w_two alert_msg None
   \<and> broadcast healthy w_two alert_msg (Some ''nobody'') =
       Inr (w_two\<lparr>wire := [(''a'', 1, alert_msg), (''b'', 2, alert_msg)]\<rparr>)
   \<and> broadcast healthy w_two alert_msg (Some []) =
       Inr (w_two\<lparr>wire := [(''a'', 1, alert_msg), (''b'', 2, alert_msg)]\<rparr>)"
  using broadcast_topic_isolation [of "''order_placed''" w_two "''b''" healthy alert_msg]
    broadcast_topic_isolation [of "''nobody''" w_two "''b''" healthy alert_msg]
    broadcast_topic_isolation [of "[]" w_two "''b''" healthy alert_msg]
  by (simp add: w_two_def m_two_def healthy_def dict_keys_def bucket_def broadcast_def
      recipients_of_def try_except_def send_json_def)

text \<open>
  Claim C1 as stated fails. In \<open>w_absent\<close> the client \<open>s\<close> is registered and no topic has
  an entry, so \<open>s\<close> is not subscribed to \<open>alert\<close>; the broadcast on \<open>alert\<close> sends the
  message to \<open>s\<close>. In \<open>w_empty\<close>, which differs only by an empty bucket for \<open>alert\<close>, the
  same broadcast sends nothing.
\<close>

theorem broadcast_absent_topic_counterexample:
  "''s'' \<notin> set (bucket (subscriptions (mgr w_absent)) ''alert'')
   \<and> broadcast healthy w_absent alert_msg (Some ''alert'') =
       Inr (w_absent\<lparr>wire := [(''s'', 1, alert_msg)]\<rparr>)
   \<and> bucket (subscriptions (mgr w_empty)) ''alert'' = bucket (subscriptions (mgr w_absent)) ''alert''
   \<and> broadcast healthy w_empty alert_msg (Some ''alert'') = Inr w_empty"
  by (simp add: w_absent_def w_empty_def healthy_def bucket_def broadcast_def recipients_of_def
      dict_keys_def try_except_def send_json_def)

text \<open>
  Claim C5. The recipients of a broadcast hold \<open>s\<close> and \<open>s2\<close>, both registered; the send
  to \<open>s\<close> raises and the send to \<open>s2\<close> does not. Then the broadcast returns normally,
  the frame for \<open>s2\<close> is among those it sent, and \<open>s\<close> is afterwards not registered and
  not among the recipients of any topic, nor of a broadcast without topic.
\<close>

theorem broadcast_isolates_failure:
  assumes "s \<in> set (recipients_of (mgr w) mt)"
    and "map_of (active_connections (mgr w)) s = Some ws"
    and "send_raises tr ws msg"
    and "s2 \<in> set (recipients_of (mgr w) mt)"
    and "map_of (active_connections (mgr w)) s2 = Some ws2"
    and "\<not> send_raises tr ws2 msg"
  shows "\<exists>w'. broadcast tr w msg mt = Inr w'
           \<and> (s2, ws2, msg) \<in> set (drop (length (wire w)) (wire w'))
           \<and> s \<notin> set (dict_keys (active_connections (mgr w')))
           \<and> (\<forall>mt'. s \<notin> set (recipients_of (mgr w') mt'))"
proof -
  let ?rs = "recipients_of (mgr w) mt"
  let ?m' = "fold (\<lambda>cid m. disconnect m cid) (failures tr (mgr w) msg ?rs) (mgr w)"
  have "s \<in> set (failures tr (mgr w) msg ?rs)"
    using assms(1-3) by (rule failures_member)
  moreover have "s \<in> set (dict_keys (active_connections (mgr w)))"
    using assms(2) by (simp add: in_keys_iff)
  ultimately have g: "gone ?m' s" by (rule gone_fold)
  have d: "(s2, ws2, msg) \<in> set (deliveries tr (mgr w) msg ?rs)"
    using assms(4-6) by (rule deliveries_member)
  from g have "s \<notin> set (dict_keys (active_connections ?m'))" by (simp add: gone_def)
  moreover from g have "\<forall>mt'. s \<notin> set (recipients_of ?m' mt')" by (simp add: gone_not_recipient)
  ultimately show ?thesis using d by (simp add: broadcast_eq)
qed

theorem broadcast_isolates_failure_witness:
  "broadcast one_broken w_two alert_msg (Some ''alert'') =
     Inr \<lparr>mgr = \<lparr>active_connections = [(''b'', 2)],
                 subscriptions = [(''alert'', [''b'']), (''order_placed'', [])],
                 connection_metadata = [(''b'', \<lparr>connected_at = 7, last_ping = 7\<rparr>)]\<rparr>,
          wire = [(''b'', 2, alert_msg)]\<rparr>
   \<and> (\<exists>w'. broadcast one_broken w_two alert_msg (Some ''alert'') = Inr w'
         \<and> (''b'', 2, alert_msg) \<in> set (drop (length (wire w_two)) (wire w'))
         \<and> ''a'' \<notin> set (dict_keys (active_connections (mgr w')))
         \<and> (\<forall>mt'. ''a'' \<notin> set (recipients_of (mgr w') mt')))"
proof -
  have r: "recipients_of (mgr w_two) (Some ''alert'') = [''a'', ''b'']"
    by (simp add: w_two_def m_two_def recipients_of_def dict_keys_def bucket_def)
  have "\<exists>w'. broadcast one_broken w_two alert_msg (Some ''alert'') = Inr w'
         \<and> (''b'', 2, alert_msg) \<in> set (drop (length (wire w_two)) (wire w'))
         \<and> ''a'' \<notin> set (dict_keys (active_connections (mgr w')))
         \<and> (\<forall>mt'. ''a'' \<notin> set (recipients_of (mgr w') mt'))"
    by (rule broadcast_isolates_failure [where ws = 1 and ?ws2.0 = 2])
      (simp_all add: r, simp_all add: w_two_def m_two_def one_broken_def)
  moreover have "broadcast one_broken w_two alert_msg (Some ''alert'') =
     Inr \<lparr>mgr = \<lparr>active_connections = [(''b'', 2)],
                 subscriptions = [(''alert'', [''b'']), (''order_placed'', [])],
                 connection_metadata = [(''b'', \<lparr>connected_at = 7, last_ping = 7\<rparr>)]\<rparr>,
          wire = [(''b'', 2, alert_msg)]\<rparr>"
    by (simp add: broadcast_def recipients_of_def bucket_def try_except_def send_json_def
        w_two_def m_two_def one_broken_def disconnect_def dict_keys_def)
  ultimately show ?thesis by blast
qed

text \<open>
  Claim C9. \<open>send_personal_message\<close> to an id that is not registered returns the world as
  it was: nothing sent, all three dictionaries unchanged. \<open>broadcast\<close> returns normally
  whatever the buckets hold: every frame it sends goes to an id that is registered, and
  every recipient that is registered and whose send does not raise gets its frame, so an
  unregistered member of the bucket is passed over and stops nothing.
\<close>

theorem unknown_recipient_skipped:
  "(cid \<notin> set (dict_keys (active_connections (mgr w)))
      \<longrightarrow> send_personal_message tr w msg cid = Inr w)
   \<and> (\<exists>w'. broadcast tr w msg mt = Inr w'
         \<and> (\<forall>d \<in> set (drop (length (wire w)) (wire w')).
               fst d \<in> set (dict_keys (active_connections (mgr w))))
         \<and> (\<forall>c ws. c \<in> set (recipients_of (mgr w) mt)
                 \<and> map_of (active_connections (mgr w)) c = Some ws \<and> \<not> send_raises tr ws msg
               \<longrightarrow> (c, ws, msg) \<in> set (drop (length (wire w)) (wire w'))))"
proof (intro conjI impI)
  assume "cid \<notin> set (dict_keys (active_connections (mgr w)))"
  then have "map_of (active_connections (mgr w)) cid = None"
    by (simp add: in_keys_iff)
  then show "send_personal_message tr w msg cid = Inr w"
    by (simp add: send_personal_message_def)
next
  show "\<exists>w'. broadcast tr w msg mt = Inr w'
         \<and> (\<forall>d \<in> set (drop (length (wire w)) (wire w')).
               fst d \<in> set (dict_keys (active_connections (mgr w))))
         \<and> (\<forall>c ws. c \<in> set (recipients_of (mgr w) mt)
                 \<and> map_of (active_connections (mgr w)) c = Some ws \<and> \<not> send_raises tr ws msg
               \<longrightarrow> (c, ws, msg) \<in> set (drop (length (wire w)) (wire w')))"
    using deliveries_registered deliveries_member by (simp add: broadcast_eq)
qed

theorem unknown_recipient_skipped_witness:
  "''ghost'' \<notin> set (dict_keys (active_connections (mgr w_orphan)))
   \<and> ''ghost'' \<in> set (recipients_of (mgr w_orphan) (Some ''alert''))
   \<and> send_personal_message healthy w_orphan alert_msg ''ghost'' = Inr w_orphan
   \<and> broadcast healthy w_orphan alert_msg (Some ''alert'') =
       Inr (w_orphan\<lparr>wire := [(''b'', 2, alert_msg)]\<rparr>)"
  using unknown_recipient_skipped [of "''ghost''" w_orphan healthy alert_msg "Some ''alert''"]
  by (simp add: w_orphan_def healthy_def dict_keys_def recipients_of_def bucket_def
      broadcast_def try_except_def send_json_def)

subsection \<open>The topic index along a run\<close>

lemma set_update_subset:
  "(k', v') \<in> set (AList.update k v al) \<Longrightarrow> (k', v') = (k, v) \<or> (k', v') \<in> set al"
  by (induction al) (auto split: if_splits)

lemma bucket_member:
  "cid \<in> set (bucket subs t) \<Longrightarrow> \<exists>b. (t, b) \<in> set subs \<and> cid \<in> set b"
  by (cases "map_of subs t") (auto simp: bucket_def dest: map_of_SomeD)

lemma no_orphans_connect:
  "no_orphans m \<Longrightarrow> connect tr m ws cid md = Inr m' \<Longrightarrow> no_orphans m'"
  by (fastforce simp: no_orphans_def connect_def dict_keys_def AList.dom_update split: if_splits)

lemma no_orphans_disconnect: "no_orphans m \<Longrightarrow> no_orphans (disconnect m cid)"
  by (auto simp: no_orphans_def disconnect_def keys_delete)

lemma no_orphans_subscribe:
  "no_orphans m \<Longrightarrow> cid \<in> set (dict_keys (active_connections m)) \<Longrightarrow>
   no_orphans (subscribe m cid ts)"
proof (induction ts arbitrary: m)
  case Nil
  then show ?case by simp
next
  case (Cons t ts)
  let ?m1 = "m\<lparr>subscriptions :=
     AList.update t (List.insert cid (bucket (subscriptions m) t)) (subscriptions m)\<rparr>"
  have "no_orphans ?m1"
    unfolding no_orphans_def
  proof (clarsimp)
    fix t' b c
    assume tb: "(t', b) \<in> set (AList.update t (List.insert cid (bucket (subscriptions m) t))
        (subscriptions m))" and c: "c \<in> set b"
    from tb consider "b = List.insert cid (bucket (subscriptions m) t)" | "(t', b) \<in> set (subscriptions m)"
      using set_update_subset by fastforce
    then show "c \<in> set (dict_keys (active_connections m))"
    proof cases
      case 1
      with c have "c = cid \<or> c \<in> set (bucket (subscriptions m) t)" by simp
      then show ?thesis
        using Cons.prems bucket_member unfolding no_orphans_def by fastforce
    next
      case 2
      with c Cons.prems(1) show ?thesis unfolding no_orphans_def by fastforce
    qed
  qed
  moreover have "cid \<in> set (dict_keys (active_connections ?m1))"
    using Cons.prems(2) by simp
  ultimately have "no_orphans (subscribe ?m1 cid ts)" by (rule Cons.IH)
  then show ?case by simp
qed

lemma no_orphans_unsubscribe: "no_orphans m \<Longrightarrow> no_orphans (unsubscribe m cid ts)"
proof (induction ts arbitrary: m)
  case Nil
  then show ?case by simp
next
  case (Cons t ts)
  let ?m1 = "m\<lparr>subscriptions :=
     AList.update t (removeAll cid (bucket (subscriptions m) t)) (subscriptions m)\<rparr>"
  have "no_orphans ?m1"
    unfolding no_orphans_def
  proof (clarsimp)
    fix t' b c
    assume tb: "(t', b) \<in> set (AList.update t (removeAll cid (bucket (subscriptions m) t))
        (subscriptions m))" and c: "c \<in> set b"
    from tb consider "b = removeAll cid (bucket (subscriptions m) t)" | "(t', b) \<in> set (subscriptions m)"
      using set_update_subset by fastforce
    then show "c \<in> set (dict_keys (active_connections m))"
    proof cases
      case 1
      with c have "c \<in> set (bucket (subscriptions m) t)" by simp
      then show ?thesis
        using Cons.prems bucket_member unfolding no_orphans_def by fastforce
    next
      case 2
      with c Cons.prems(1) show ?thesis unfolding no_orphans_def by fastforce
    qed
  qed
  then have "no_orphans (unsubscribe ?m1 cid ts)" by (rule Cons.IH)
  then show ?case by simp
qed

text \<open>
  Claim C4, as the code has it. Start from a manager without orphaned index entries (the
  empty manager is one) and run any sequence of \<open>connect\<close>, \<open>disconnect\<close>, \<open>subscribe\<close>
  and \<open>unsubscribe\<close> in which every \<open>subscribe\<close> names an id that is registered when it
  runs. Then every id in a bucket of the index is registered. The manager keeps no topic
  set per session: membership in the buckets is the only record of a subscription.
\<close>

theorem index_consistent:
  "no_orphans m \<Longrightarrow> subscribes_registered tr m ops \<Longrightarrow> no_orphans (run tr m ops)"
proof (induction ops arbitrary: m)
  case Nil
  then show ?case by simp
next
  case (Cons x xs)
  have "no_orphans (apply_op tr m x)"
  proof (cases x)
    case (Connect ws cid md)
    with Cons.prems(1) show ?thesis
      by (auto split: sum.splits dest: no_orphans_connect)
  next
    case (Disconnect cid)
    with Cons.prems(1) show ?thesis by (simp add: no_orphans_disconnect)
  next
    case (Subscribe cid ts)
    with Cons.prems show ?thesis by (simp add: no_orphans_subscribe)
  next
    case (Unsubscribe cid ts)
    with Cons.prems(1) show ?thesis by (simp add: no_orphans_unsubscribe)
  qed
  moreover have "subscribes_registered tr (apply_op tr m x) xs"
    using Cons.prems(2) by simp
  ultimately have "no_orphans (run tr (apply_op tr m x) xs)" by (rule Cons.IH)
  then show ?case by simp
qed

theorem index_consistent_witness:
  "no_orphans init_manager \<and> subscribes_registered healthy init_manager ops_ok
   \<and> run healthy init_manager ops_ok =
       \<lparr>active_connections = [(''b'', 2)],
        subscriptions = [(''alert'', [''b'']), (''order_placed'', []), (''metrics'', [])],
        connection_metadata = [(''b'', \<lparr>connected_at = 7, last_ping = 7\<rparr>)]\<rparr>
   \<and> no_orphans (run healthy init_manager ops_ok)"
proof -
  have a: "no_orphans init_manager" by (simp add: no_orphans_def init_manager_def)
  have b: "subscribes_registered healthy init_manager ops_ok"
    by (simp add: ops_ok_def init_manager_def healthy_def connect_def dict_keys_def bucket_def)
  have c: "run healthy init_manager ops_ok =
       \<lparr>active_connections = [(''b'', 2)],
        subscriptions = [(''alert'', [''b'']), (''order_placed'', []), (''metrics'', [])],
        connection_metadata = [(''b'', \<lparr>connected_at = 7, last_ping = 7\<rparr>)]\<rparr>"
    by (simp add: ops_ok_def init_manager_def healthy_def connect_def dict_keys_def bucket_def
        disconnect_def)
  from a b c index_consistent [OF a b] show ?thesis by simp
qed

text \<open>
  Claim C4 as stated fails: \<open>subscribe\<close> does not look at the session map, so the run
  that subscribes the unregistered id \<open>ghost\<close> on the empty manager ends with \<open>ghost\<close> in
  the bucket of \<open>alert\<close> and no session registered.
\<close>

theorem index_orphan_counterexample:
  "run healthy init_manager [Subscribe ''ghost'' [''alert'']] =
     \<lparr>active_connections = [], subscriptions = [(''alert'', [''ghost''])], connection_metadata = []\<rparr>
   \<and> \<not> no_orphans (run healthy init_manager [Subscribe ''ghost'' [''alert'']])"
  by (simp add: init_manager_def bucket_def no_orphans_def dict_keys_def)

subsection \<open>Subscribing more than once\<close>

lemma bucket_distinct: "buckets_distinct m \<Longrightarrow> distinct (bucket (subscriptions m) t)"
  by (cases "map_of (subscriptions m) t")
    (auto simp: bucket_def buckets_distinct_def dest!: map_of_SomeD)

lemma buckets_distinct_subscribe:
  "buckets_distinct m \<Longrightarrow> buckets_distinct (subscribe m cid ts)"
proof (induction ts arbitrary: m)
  case Nil
  then show ?case by simp
next
  case (Cons t ts)
  let ?b = "List.insert cid (bucket (subscriptions m) t)"
  have "distinct ?b" using Cons.prems by (simp add: bucket_distinct)
  then have "buckets_distinct (m\<lparr>subscriptions := AList.update t ?b (subscriptions m)\<rparr>)"
    using Cons.prems set_update_subset [of _ _ t ?b "subscriptions m"]
    unfolding buckets_distinct_def by fastforce
  then show ?case using Cons.IH by simp
qed

lemma subscribe_noop:
  "\<forall>t \<in> set ts. \<exists>b. map_of (subscriptions m) t = Some b \<and> cid \<in> set b \<Longrightarrow>
   subscribe m cid ts = m"
proof (induction ts arbitrary: m)
  case Nil
  show ?case by simp
next
  case (Cons t ts)
  from Cons.prems obtain b where b: "map_of (subscriptions m) t = Some b" "cid \<in> set b"
    by auto
  then have "AList.update t (List.insert cid (bucket (subscriptions m) t)) (subscriptions m)
      = subscriptions m"
    by (simp add: bucket_def AList.update_triv)
  then have "subscribe m cid (t # ts) = subscribe m cid ts" by simp
  also have "\<dots> = m" using Cons.prems by (intro Cons.IH) simp
  finally show ?case .
qed

lemma subscribe_entry:
  "t \<in> set ts \<or> (\<exists>b. map_of (subscriptions m) t = Some b \<and> cid \<in> set b) \<Longrightarrow>
   \<exists>b. map_of (subscriptions (subscribe m cid ts)) t = Some b \<and> cid \<in> set b"
proof (induction ts arbitrary: m)
  case Nil
  then show ?case by simp
next
  case (Cons u ts)
  let ?m1 = "m\<lparr>subscriptions :=
     AList.update u (List.insert cid (bucket (subscriptions m) u)) (subscriptions m)\<rparr>"
  have "t \<in> set ts \<or> (\<exists>b. map_of (subscriptions ?m1) t = Some b \<and> cid \<in> set b)"
    using Cons.prems by (auto simp: AList.update_conv')
  then have "\<exists>b. map_of (subscriptions (subscribe ?m1 cid ts)) t = Some b \<and> cid \<in> set b"
    by (rule Cons.IH)
  then show ?case by simp
qed

lemma subscribe_twice: "subscribe (subscribe m cid ts) cid ts = subscribe m cid ts"
  by (rule subscribe_noop) (simp add: subscribe_entry)

lemma subscribe_many:
  "((\<lambda>m. subscribe m cid ts) ^^ Suc n) m = subscribe m cid ts"
  by (induction n) (simp_all add: subscribe_twice)

text \<open>
  Claim C10. Subscribing twice with the same id and topics gives the state of subscribing
  once. When the buckets hold no id twice, then after any number \<open>n + 1\<close> of equal
  subscribes a broadcast on one of the topics returns normally and sends at most one
  frame to each id; the subscriber, when it is registered and its send does not raise,
  gets exactly one.
\<close>

theorem subscribe_idempotent:
  "subscribe (subscribe m cid ts) cid ts = subscribe m cid ts
   \<and> (buckets_distinct (mgr w) \<and> t \<noteq> [] \<and> t \<in> set ts \<longrightarrow>
        (\<exists>w'. broadcast tr (w\<lparr>mgr := ((\<lambda>m. subscribe m cid ts) ^^ Suc n) (mgr w)\<rparr>) msg (Some t)
                = Inr w'
           \<and> (\<forall>c. length (received (wire w') c) \<le> Suc (length (received (wire w) c)))
           \<and> (\<forall>ws. map_of (active_connections (mgr w)) cid = Some ws \<and> \<not> send_raises tr ws msg
                 \<longrightarrow> received (wire w') cid = received (wire w) cid @ [msg])))"
proof (intro conjI impI)
  show "subscribe (subscribe m cid ts) cid ts = subscribe m cid ts"
    by (rule subscribe_twice)
next
  assume a: "buckets_distinct (mgr w) \<and> t \<noteq> [] \<and> t \<in> set ts"
  let ?m = "subscribe (mgr w) cid ts"
  let ?rs = "bucket (subscriptions ?m) t"
  have m: "((\<lambda>m. subscribe m cid ts) ^^ Suc n) (mgr w) = ?m" by (rule subscribe_many)
  have rs: "recipients_of ?m (Some t) = ?rs"
    using a by (simp add: recipients_of_def subscribe_keys)
  have d: "distinct ?rs"
    using a by (simp add: bucket_distinct buckets_distinct_subscribe)
  have c: "cid \<in> set ?rs" using a by (simp add: subscribe_bucket)
  have ac: "active_connections ?m = active_connections (mgr w)"
    by (simp add: subscribe_other_fields)
  have le: "length (received (deliveries tr ?m msg ?rs) c) \<le> 1" for c
    using d by (rule received_deliveries_distinct)
  have once: "received (deliveries tr ?m msg ?rs) cid = [msg]"
    if "map_of (active_connections (mgr w)) cid = Some ws" "\<not> send_raises tr ws msg" for ws
    using d c that by (intro received_deliveries_once [where ws = ws]) (simp_all add: ac)
  show "\<exists>w'. broadcast tr (w\<lparr>mgr := ((\<lambda>m. subscribe m cid ts) ^^ Suc n) (mgr w)\<rparr>) msg (Some t)
                = Inr w'
           \<and> (\<forall>c. length (received (wire w') c) \<le> Suc (length (received (wire w) c)))
           \<and> (\<forall>ws. map_of (active_connections (mgr w)) cid = Some ws \<and> \<not> send_raises tr ws msg
                 \<longrightarrow> received (wire w') cid = received (wire w) cid @ [msg])"
    unfolding m using le once by (auto simp: broadcast_eq rs received_append)
qed

theorem subscribe_idempotent_witness:
  "buckets_distinct (mgr w_two) \<and> ''alert'' \<noteq> [] 
   \<and> subscribe (subscribe m_two ''b'' [''alert'', ''order_placed'']) ''b'' [''alert'', ''order_placed'']
       = \<lparr>active_connections = [(''a'', 1), (''b'', 2)],
          subscriptions = [(''alert'', [''a'', ''b'']), (''order_placed'', [''b'', ''a''])],
          connection_metadata =
            [(''a'', \<lparr>connected_at = 5, last_ping = 5\<rparr>), (''b'', \<lparr>connected_at = 7, last_ping = 7\<rparr>)]\<rparr>
   \<and> (\<exists>w'. broadcast healthy
              (w_two\<lparr>mgr := ((\<lambda>m. subscribe m ''b'' [''alert'', ''order_placed'']) ^^ Suc 2) (mgr w_two)\<rparr>)
              alert_msg (Some ''alert'') = Inr w'
         \<and> received (wire w') ''b'' = received (wire w_two) ''b'' @ [alert_msg])"
proof -
  have a: "buckets_distinct (mgr w_two)"
    by (simp add: w_two_def m_two_def buckets_distinct_def)
  have b: "map_of (active_connections (mgr w_two)) ''b'' = Some 2 \<and> \<not> send_raises healthy 2 alert_msg"
    by (simp add: w_two_def m_two_def healthy_def)
  have c: "subscribe m_two ''b'' [''alert'', ''order_placed'']
       = \<lparr>active_connections = [(''a'', 1), (''b'', 2)],
          subscriptions = [(''alert'', [''a'', ''b'']), (''order_placed'', [''b'', ''a''])],
          connection_metadata =
            [(''a'', \<lparr>connected_at = 5, last_ping = 5\<rparr>), (''b'', \<lparr>connected_at = 7, last_ping = 7\<rparr>)]\<rparr>"
    by (simp add: m_two_def bucket_def)
  show ?thesis
    using a b c subscribe_idempotent [of m_two "''b''" "[''alert'', ''order_placed'']" w_two
        "''alert''" healthy 2 alert_msg]
    by auto
qed

subsection \<open>The revenue milestones\<close>


















subsection \<open>The metrics pump\<close>

lemma get_live_metrics_returns: "\<exists>metrics. get_live_metrics q = Inr metrics"
  by (cases q) (simp_all add: get_live_metrics_def execute_one_def try_except_def)

lemma get_live_metrics_failure: "get_live_metrics DbRaises = Inr []"
  by (simp add: get_live_metrics_def execute_one_def try_except_def)

lemma pump_body_healthy:
  "map_of (active_connections (mgr w)) s = Some ws \<Longrightarrow> \<not> send_raises tr ws (metrics_message metrics now) \<Longrightarrow>
   get_live_metrics q = Inr metrics \<Longrightarrow>
   pump_body tr s (q, now) w = Inr (w\<lparr>wire := wire w @ [(s, ws, metrics_message metrics now)]\<rparr>)"
  by (simp add: pump_body_def send_personal_message_def try_except_def send_json_def)

text \<open>
  Claim C3, as the code has it. \<open>get_live_metrics\<close> catches the failure of the database
  itself and returns the empty dictionary, so the pump never sees a failed fetch and has
  no tick to skip. For a registered client whose sends do not raise, and a database that
  fails on the second of three ticks, the pump sends three frames of type \<open>metrics\<close>, the
  second with empty data, and its loop condition still holds afterwards.
\<close>

theorem pump_sends_every_tick:
  assumes "map_of (active_connections (mgr w)) s = Some ws"
    and "\<forall>msg. \<not> send_raises tr ws msg"
  shows "\<exists>d1 d3. get_live_metrics (DbRow r1) = Inr d1 \<and> get_live_metrics (DbRow r3) = Inr d3
           \<and> get_live_metrics DbRaises = Inr []
           \<and> map_of (metrics_message [] t2) ''type'' = Some (JStr ''metrics'')
           \<and> send_metrics_updates tr s [(DbRow r1, t1), (DbRaises, t2), (DbRow r3, t3)] w =
               (w\<lparr>wire := wire w @ [(s, ws, metrics_message d1 t1), (s, ws, metrics_message [] t2),
                                      (s, ws, metrics_message d3 t3)]\<rparr>,
                Running)"
proof -
  obtain d1 where d1: "get_live_metrics (DbRow r1) = Inr d1"
    using get_live_metrics_returns by blast
  obtain d3 where d3: "get_live_metrics (DbRow r3) = Inr d3"
    using get_live_metrics_returns by blast
  have k: "s \<in> set (dict_keys (active_connections (mgr w)))"
    using assms(1) by (simp add: in_keys_iff)
  let ?w1 = "w\<lparr>wire := wire w @ [(s, ws, metrics_message d1 t1)]\<rparr>"
  let ?w2 = "w\<lparr>wire := wire w @ [(s, ws, metrics_message d1 t1), (s, ws, metrics_message [] t2)]\<rparr>"
  let ?w3 = "w\<lparr>wire := wire w @ [(s, ws, metrics_message d1 t1), (s, ws, metrics_message [] t2),
                                 (s, ws, metrics_message d3 t3)]\<rparr>"
  have b1: "pump_body tr s (DbRow r1, t1) w = Inr ?w1"
    using assms d1 by (simp add: pump_body_healthy)
  have b2: "pump_body tr s (DbRaises, t2) ?w1 = Inr ?w2"
    using assms get_live_metrics_failure by (simp add: pump_body_healthy)
  have b3: "pump_body tr s (DbRow r3, t3) ?w2 = Inr ?w3"
    using assms d3 by (simp add: pump_body_healthy)
  have "send_metrics_updates tr s [(DbRow r1, t1), (DbRaises, t2), (DbRow r3, t3)] w = (?w3, Running)"
    using k by (simp add: b1 b2 b3)
  then show ?thesis using d1 d3 get_live_metrics_failure by (simp add: metrics_message_def)
qed

theorem pump_sends_every_tick_witness:
  "map_of (active_connections (mgr w_absent)) ''s'' = Some 1
   \<and> (\<forall>msg. \<not> send_raises healthy 1 msg)
   \<and> (\<exists>d1 d3. send_metrics_updates healthy ''s'' pump_ticks w_absent =
               (w_absent\<lparr>wire := wire w_absent @ [(''s'', 1, metrics_message d1 ''t1''),
                    (''s'', 1, metrics_message [] ''t2''), (''s'', 1, metrics_message d3 ''t3'')]\<rparr>,
                Running))"
proof -
  have a: "map_of (active_connections (mgr w_absent)) ''s'' = Some 1"
    by (simp add: w_absent_def)
  have b: "\<forall>msg. \<not> send_raises healthy 1 msg" by (simp add: healthy_def)
  from pump_sends_every_tick [OF a b, where ?r1.0 = row0 and ?r3.0 = row0
      and ?t1.0 = "''t1''" and ?t2.0 = "''t2''" and ?t3.0 = "''t3''"] a b
  show ?thesis unfolding pump_ticks_def by blast
qed

text \<open>
  Claim C3 as stated fails: with the database failing on tick 2 the client \<open>s\<close> gets three
  frames of type \<open>metrics\<close>, not two; the frame of tick 2 carries the empty dictionary.
\<close>

theorem pump_failed_tick_counterexample:
  "send_metrics_updates healthy ''s'' pump_ticks w_absent =
     (w_absent\<lparr>wire := [(''s'', 1, metrics_message metrics0 ''t1''),
                          (''s'', 1, metrics_message [] ''t2''),
                          (''s'', 1, metrics_message metrics0 ''t3'')]\<rparr>,
      Running)
   \<and> map_of (metrics_message [] ''t2'') ''type'' = Some (JStr ''metrics'')"
  by (simp add: pump_ticks_def pump_body_def get_live_metrics_def execute_one_def try_except_def
      send_personal_message_def send_json_def w_absent_def healthy_def dict_keys_def row0_def
      metrics0_def metrics_message_def)

subsection \<open>The buckets stay sets\<close>

text \<open>
  The hypothesis of the result on repeated subscribes holds in every state that a run
  reaches from the empty manager.
\<close>

lemma buckets_distinct_unsubscribe:
  "buckets_distinct m \<Longrightarrow> buckets_distinct (unsubscribe m cid ts)"
proof (induction ts arbitrary: m)
  case Nil
  then show ?case by simp
next
  case (Cons t ts)
  let ?b = "removeAll cid (bucket (subscriptions m) t)"
  have "distinct ?b" using Cons.prems by (simp add: bucket_distinct distinct_removeAll)
  then have "buckets_distinct (m\<lparr>subscriptions := AList.update t ?b (subscriptions m)\<rparr>)"
    using Cons.prems set_update_subset [of _ _ t ?b "subscriptions m"]
    unfolding buckets_distinct_def by fastforce
  then show ?case using Cons.IH by simp
qed

lemma buckets_distinct_disconnect: "buckets_distinct m \<Longrightarrow> buckets_distinct (disconnect m cid)"
  by (auto simp: buckets_distinct_def disconnect_def distinct_removeAll)

lemma buckets_distinct_run: "buckets_distinct m \<Longrightarrow> buckets_distinct (run tr m ops)"
proof (induction ops arbitrary: m)
  case Nil
  then show ?case by simp
next
  case (Cons x xs)
  have "buckets_distinct (apply_op tr m x)"
  proof (cases x)
    case (Connect ws cid md)
    with Cons.prems show ?thesis
      by (auto simp: connect_def buckets_distinct_def split: sum.splits if_splits)
  next
    case (Disconnect cid)
    with Cons.prems show ?thesis by (simp add: buckets_distinct_disconnect)
  next
    case (Subscribe cid ts)
    with Cons.prems show ?thesis by (simp add: buckets_distinct_subscribe)
  next
    case (Unsubscribe cid ts)
    with Cons.prems show ?thesis by (simp add: buckets_distinct_unsubscribe)
  qed
  then show ?case using Cons.IH by simp
qed

lemma buckets_distinct_reachable: "buckets_distinct (run tr init_manager ops)"
  by (rule buckets_distinct_run) (simp add: buckets_distinct_def init_manager_def)

end
